theory Spec2Isabelle
  imports Main
begin

section \<open>The persisted work queue: tasks, the task table, one poll cycle\<close>

text \<open>
  The sources hold three iterations of the queue service. The development
  follows the latest one (the one with \<^verbatim>\<open>retries\<close>, \<^verbatim>\<open>timeout\<close> and the logger); where
  the iteration under \<^verbatim>\<open>server/src/models/Queue/Service.ts\<close> differs, the difference
  is modelled beside it. The oldest one (with the single \<^verbatim>\<open>handleOnly\<close> filter) has
  neither \<^verbatim>\<open>resetAndRestart\<close> nor the exclude list and is not modelled.

  The table is an SQL table reached through a query builder; it is modelled
  as the list of its rows. Dates are milliseconds since the epoch, and the
  \<^verbatim>\<open>params\<close> object is kept as its JSON text.
\<close>

subsection \<open>Task records\<close>

datatype TaskStatus = Pending | Process | Done | Error

record Task =
  task_id :: string
  handler :: string
  params :: string
  startAt :: int
  timeout :: "int option"
  status :: TaskStatus
  info :: string
  error :: string
  retries :: int
  createdAt :: int
  updatedAt :: int

type_synonym Table = "Task list"

record HandleOptions =
  include_opt :: "string list option"
  exclude_opt :: "string list option"

subsection \<open>The execution context and the handler registry\<close>

text \<open>A thrown value, kept as the text that describes it.\<close>

datatype Thrown = Thrown (description: string)

record Process =
  task :: Task

definition new_Process :: "Task \<Rightarrow> Process" where
  "new_Process t = \<lparr>task = t\<rparr>"

text \<open>
  Modelled from the spec: \<^verbatim>\<open>Process.error\<close> of \<^verbatim>\<open>models/Queue/Entity.ts\<close>, which is
  not among the sources. The failure operation takes a failure value and
  produces a task with status \<^verbatim>\<open>Error\<close>, \<^verbatim>\<open>error\<close> set to a string description of the
  failure and \<^verbatim>\<open>updatedAt\<close> bumped; it is pure. The clock reading is the
  argument \<open>now\<close>.
\<close>

definition Process_error :: "Process \<Rightarrow> Thrown \<Rightarrow> int \<Rightarrow> Process" where
  "Process_error p e now =
     \<lparr>task = (task p)\<lparr>status := Error, error := description e, updatedAt := now\<rparr>\<rparr>"

text \<open>
  The registry \<^verbatim>\<open>Handlers\<close> (the module \<^verbatim>\<open>queue/index.ts\<close>) maps a handler name to the
  function exported as \<^verbatim>\<open>default\<close>. A handler receives the context and either
  throws or returns a context. The registry is a parameter of the model.
\<close>

type_synonym Handlers = "string \<Rightarrow> (Process \<Rightarrow> Thrown + Process) option"

text \<open>
  \<^verbatim>\<open>Handlers[current.handler].default(process)\<close>: for a name that is not a key of
  the module object the lookup is \<^verbatim>\<open>undefined\<close> and reading \<^verbatim>\<open>.default\<close> throws a
  TypeError before any handler runs.
\<close>

definition undefined_default :: Thrown where
  "undefined_default =
     Thrown ''TypeError: Cannot read properties of undefined (reading 'default')''"

definition call_handler :: "Handlers \<Rightarrow> Process \<Rightarrow> Thrown + Process" where
  "call_handler Handlers p =
     (case Handlers (handler (task p)) of
        None \<Rightarrow> Inl undefined_default
      | Some h \<Rightarrow> h p)"

subsection \<open>Queries on the task table\<close>

text \<open>
  The \<^verbatim>\<open>where\<close> callback of \<^verbatim>\<open>handle\<close>: status and start time always, the handler
  filters only for a list that is present and not empty.
\<close>

definition whereIn_include :: "HandleOptions \<Rightarrow> Task \<Rightarrow> bool" where
  "whereIn_include options t =
     (case include_opt options of
        None \<Rightarrow> True
      | Some inc \<Rightarrow> (if length inc > 0 then handler t \<in> set inc else True))"

definition whereNotIn_exclude :: "HandleOptions \<Rightarrow> Task \<Rightarrow> bool" where
  "whereNotIn_exclude options t =
     (case exclude_opt options of
        None \<Rightarrow> True
      | Some exc \<Rightarrow> (if length exc > 0 then handler t \<notin> set exc else True))"

definition candidate_where :: "HandleOptions \<Rightarrow> int \<Rightarrow> Task \<Rightarrow> bool" where
  "candidate_where options now t \<longleftrightarrow>
     status t = Pending \<and> startAt t \<le> now
     \<and> whereIn_include options t \<and> whereNotIn_exclude options t"

text \<open>
  \<^verbatim>\<open>.orderBy("startAt", "asc").limit(1).first()\<close>. The sort is stable, so among rows
  with the same \<^verbatim>\<open>startAt\<close> the model takes the one stored first; the database
  leaves that choice open.
\<close>

definition select_current :: "HandleOptions \<Rightarrow> int \<Rightarrow> Table \<Rightarrow> Task option" where
  "select_current options now tbl =
     (case sort_key startAt (filter (candidate_where options now) tbl) of
        [] \<Rightarrow> None
      | t # _ \<Rightarrow> Some t)"

text \<open>
  The claim:
  \<^verbatim>\<open>update({status: Process}).increment('retries').where({id, status: Pending})\<close>.
  It changes every row that matches and reports how many matched.
\<close>

definition lock_where :: "string \<Rightarrow> Task \<Rightarrow> bool" where
  "lock_where cid t \<longleftrightarrow> task_id t = cid \<and> status t = Pending"

definition lock_update :: "string \<Rightarrow> Table \<Rightarrow> Table" where
  "lock_update cid tbl =
     map (\<lambda>t. if lock_where cid t
              then t\<lparr>status := Process, retries := retries t + 1\<rparr>
              else t) tbl"

definition lock_count :: "string \<Rightarrow> Table \<Rightarrow> nat" where
  "lock_count cid tbl = length (filter (lock_where cid) tbl)"

text \<open>\<^verbatim>\<open>update(row).where("id", cid)\<close>: every column of every row with that id is set.\<close>

definition update_where_id :: "string \<Rightarrow> Task \<Rightarrow> Table \<Rightarrow> Table" where
  "update_where_id cid row tbl = map (\<lambda>t. if task_id t = cid then row else t) tbl"

subsection \<open>One poll cycle\<close>

text \<open>
  \<^verbatim>\<open>handle\<close> suspends at every \<^verbatim>\<open>await\<close>, and other pollers write to the same table
  meanwhile. What happens to the table between the select and the claim, and
  between the claim and the write of the outcome (by other pollers, or by the
  handler itself), is given as two functions on the table. The store
  operations themselves are taken to succeed.
\<close>

record Interleaving =
  before_lock :: "Table \<Rightarrow> Table"
  during_handler :: "Table \<Rightarrow> Table"

text \<open>What a cycle did, in order: writes to the table, the log line, the handler call.\<close>

datatype Effect =
    Lock_attempt string nat
  | Log_info string
  | Handler_called string
  | Row_update string Task

record Cycle =
  returned :: bool
  table :: Table
  effects :: "Effect list"

definition handler_effect :: "Handlers \<Rightarrow> Task \<Rightarrow> Effect list" where
  "handler_effect Handlers current =
     (case Handlers (handler current) of
        None \<Rightarrow> []
      | Some h \<Rightarrow> [Handler_called (handler current)])"

definition handle ::
  "Handlers \<Rightarrow> Interleaving \<Rightarrow> int \<Rightarrow> int \<Rightarrow> HandleOptions \<Rightarrow> Table \<Rightarrow> Cycle" where
  "handle Handlers others now now_error options tbl =
     (case select_current options now tbl of
        None \<Rightarrow> \<lparr>returned = False, table = tbl, effects = []\<rparr>
      | Some current \<Rightarrow>
          let tbl1 = before_lock others tbl;
              lock = lock_count (task_id current) tbl1;
              tbl2 = lock_update (task_id current) tbl1
          in if lock = 0
             then \<lparr>returned = False, table = tbl2,
                   effects = [Lock_attempt (task_id current) lock]\<rparr>
             else
               let process = new_Process current;
                   tbl3 = during_handler others tbl2;
                   started = [Lock_attempt (task_id current) lock,
                              Log_info (''Handle task: '' @ task_id current)]
                             @ handler_effect Handlers current
               in (case call_handler Handlers process of
                     Inr res \<Rightarrow>
                       \<lparr>returned = True,
                        table = update_where_id (task_id current) (task res) tbl3,
                        effects = started @ [Row_update (task_id current) (task res)]\<rparr>
                   | Inl e \<Rightarrow>
                       \<lparr>returned = True,
                        table = update_where_id (task_id current)
                                  (task (Process_error process e now_error)) tbl3,
                        effects = started @ [Row_update (task_id current)
                                  (task (Process_error process e now_error))]\<rparr>))"

subsection \<open>Reset\<close>

text \<open>
  \<^verbatim>\<open>resetAndRestart\<close> evaluates \<^verbatim>\<open>new Date()\<close> twice, for \<^verbatim>\<open>startAt\<close> and for
  \<^verbatim>\<open>updatedAt\<close>; the two readings are the first two arguments. It returns the
  updated record, and the model returns the table beside it.
\<close>

definition resetAndRestart :: "int \<Rightarrow> int \<Rightarrow> Task \<Rightarrow> Table \<Rightarrow> Task \<times> Table" where
  "resetAndRestart now_startAt now_updatedAt t tbl =
     (let updated = t\<lparr>status := Pending, startAt := now_startAt, error := [],
                       updatedAt := now_updatedAt\<rparr>
      in (updated, update_where_id (task_id updated) updated tbl))"

subsection \<open>The earlier iteration of the service\<close>

text \<open>
  \<^verbatim>\<open>server/src/models/Queue/Service.ts\<close> is an earlier iteration of the same class.
  Its select, its dispatch and its \<^verbatim>\<open>createBroker\<close> are the ones above. It differs
  in three places: it has no logger, its claim does not increment \<^verbatim>\<open>retries\<close> (its
  \<^verbatim>\<open>push\<close> writes no such column), and its \<^verbatim>\<open>resetAndRestart\<close> sets only \<^verbatim>\<open>status\<close>
  and \<^verbatim>\<open>startAt\<close>.
\<close>

definition lock_update_earlier :: "string \<Rightarrow> Table \<Rightarrow> Table" where
  "lock_update_earlier cid tbl =
     map (\<lambda>t. if lock_where cid t then t\<lparr>status := Process\<rparr> else t) tbl"

definition resetAndRestart_earlier :: "int \<Rightarrow> Task \<Rightarrow> Table \<Rightarrow> Task \<times> Table" where
  "resetAndRestart_earlier now_startAt t tbl =
     (let updated = t\<lparr>status := Pending, startAt := now_startAt\<rparr>
      in (updated, update_where_id (task_id updated) updated tbl))"

section \<open>The broker\<close>

subsection \<open>Construction\<close>

text \<open>
  \<^verbatim>\<open>createBroker\<close> tests \<^verbatim>\<open>typeof options.handler === "string"\<close>, so the model keeps
  the run-time shape of that option: missing, a string, or a \<^verbatim>\<open>HandleOptions\<close>
  object. The declared type \<^verbatim>\<open>Partial<BrokerOptions>\<close> admits the first and the
  last.
\<close>

datatype HandlerOption = Undefined | String_value string | Options_value HandleOptions

record PartialBrokerOptions =
  interval_opt :: "int option"
  handler_opt :: HandlerOption

record BrokerOptions =
  interval :: int
  handler_filter :: HandlerOption

record Broker =
  isStarted :: bool
  options :: BrokerOptions

text \<open>The constructor: \<^verbatim>\<open>{ interval: 1000, ...options }\<close>, with \<^verbatim>\<open>isStarted = false\<close>.\<close>

definition new_Broker :: "PartialBrokerOptions \<Rightarrow> Broker" where
  "new_Broker opts =
     \<lparr>isStarted = False,
      options = \<lparr>interval = (case interval_opt opts of None \<Rightarrow> 1000 | Some i \<Rightarrow> i),
                 handler_filter = handler_opt opts\<rparr>\<rparr>"

text \<open>
  Modelled from the spec: \<^verbatim>\<open>hasHandler\<close> of \<^verbatim>\<open>models/Queue/Entity.ts\<close>, which is not
  among the sources. A name has a handler when it exists in the Handler
  Registry.
\<close>

definition hasHandler :: "Handlers \<Rightarrow> string \<Rightarrow> bool" where
  "hasHandler Handlers name \<longleftrightarrow> Handlers name \<noteq> None"

definition createBroker :: "Handlers \<Rightarrow> PartialBrokerOptions \<Rightarrow> Thrown + Broker" where
  "createBroker Handlers opts =
     (case handler_opt opts of
        String_value s \<Rightarrow>
          if \<not> hasHandler Handlers s
          then Inl (Thrown (''Error: Invalid queue handler '' @ [CHR 0x22] @ s @ [CHR 0x22]))
          else Inr (new_Broker opts)
      | _ \<Rightarrow> Inr (new_Broker opts))"

text \<open>The handler names an options value lists, in either list.\<close>

definition listed_names :: "PartialBrokerOptions \<Rightarrow> string set" where
  "listed_names opts =
     (case handler_opt opts of
        Options_value h \<Rightarrow>
          (case include_opt h of None \<Rightarrow> {} | Some inc \<Rightarrow> set inc)
          \<union> (case exclude_opt h of None \<Rightarrow> {} | Some exc \<Rightarrow> set exc)
      | _ \<Rightarrow> {})"

subsection \<open>The poll loop\<close>

text \<open>
  \<^verbatim>\<open>Broker.handle\<close> is an async function that calls itself at its end; the chain of
  these calls is one loop. \<^verbatim>\<open>start()\<close> sets the flag and calls \<^verbatim>\<open>this.handle()\<close>, so
  every call of \<^verbatim>\<open>start()\<close> begins a loop of its own on the same broker. A loop is
  suspended in two places: while the service's \<^verbatim>\<open>handle\<close> is in flight, and while
  the timer runs. Between two suspensions its code runs without interruption.
  The state of a running broker is the broker object and, for each loop begun
  so far, where it is suspended.
\<close>

datatype Pc = Awaiting_handle | Awaiting_timer | Finished

record Running =
  broker :: Broker
  loops :: "Pc list"

text \<open>What is observed of a run. Steps of a loop carry the number of the loop.\<close>

datatype Event =
    Called_start
  | Called_stop
  | Observed nat bool
  | Handle_called nat HandlerOption
  | Handle_resolved nat bool
  | Timer_set nat int
  | Timer_fired nat
  | Loop_returned nat

text \<open>
  The body of \<^verbatim>\<open>Broker.handle\<close> from its top to the first \<^verbatim>\<open>await\<close>:
  \<^verbatim>\<open>if (!this.isStarted) return;\<close> and the call of the service.
\<close>

definition Broker_handle :: "nat \<Rightarrow> Broker \<Rightarrow> Pc \<times> Event list" where
  "Broker_handle k b =
     (if \<not> isStarted b then (Finished, [Observed k False, Loop_returned k])
      else (Awaiting_handle, [Observed k True, Handle_called k (handler_filter (options b))]))"

text \<open>
  The body after the service call has resolved to \<open>res\<close>: with \<^verbatim>\<open>!res\<close> the timer
  is set, otherwise \<^verbatim>\<open>this.handle()\<close> is called at once.
\<close>

definition handle_resolved :: "nat \<Rightarrow> Broker \<Rightarrow> bool \<Rightarrow> Pc \<times> Event list" where
  "handle_resolved k b res =
     (if \<not> res
      then (Awaiting_timer, [Handle_resolved k res, Timer_set k (interval (options b))])
      else (fst (Broker_handle k b), Handle_resolved k res # snd (Broker_handle k b)))"

text \<open>The body after the timer has fired: \<^verbatim>\<open>this.handle()\<close>.\<close>

definition timer_fired :: "nat \<Rightarrow> Broker \<Rightarrow> Pc \<times> Event list" where
  "timer_fired k b = (fst (Broker_handle k b), Timer_fired k # snd (Broker_handle k b))"

definition start :: "Running \<Rightarrow> Running \<times> Event list" where
  "start s =
     (let b = (broker s)\<lparr>isStarted := True\<rparr>;
          k = length (loops s)
      in (\<lparr>broker = b, loops = loops s @ [fst (Broker_handle k b)]\<rparr>,
          Called_start # snd (Broker_handle k b)))"

definition stop :: "Broker \<Rightarrow> Broker" where
  "stop b = b\<lparr>isStarted := False\<rparr>"

text \<open>
  What the environment does: it calls \<^verbatim>\<open>start()\<close> or \<^verbatim>\<open>stop()\<close>, the service call of
  loop \<open>k\<close> resolves to a value, or the timer of loop \<open>k\<close> fires. A resolution or
  a timer for a loop that is not waiting for it does not happen and is
  skipped. A list of inputs bounds the run; the loop itself has no bound.
\<close>

datatype Input = Start | Stop | Resolve nat bool | Fire nat

fun step :: "Running \<Rightarrow> Input \<Rightarrow> Running \<times> Event list" where
  "step s Start = start s"
| "step s Stop = (s\<lparr>broker := stop (broker s)\<rparr>, [Called_stop])"
| "step s (Resolve k res) =
     (if k < length (loops s) \<and> loops s ! k = Awaiting_handle
      then (s\<lparr>loops := (loops s)[k := fst (handle_resolved k (broker s) res)]\<rparr>,
            snd (handle_resolved k (broker s) res))
      else (s, []))"
| "step s (Fire k) =
     (if k < length (loops s) \<and> loops s ! k = Awaiting_timer
      then (s\<lparr>loops := (loops s)[k := fst (timer_fired k (broker s))]\<rparr>,
            snd (timer_fired k (broker s)))
      else (s, []))"

fun run :: "Running \<Rightarrow> Input list \<Rightarrow> Event list" where
  "run s [] = []"
| "run s (i # ins) = snd (step s i) @ run (fst (step s i)) ins"

text \<open>
  Loop \<open>k\<close> as the specification words it, as an acceptor of runs. The acceptor
  keeps the value of \<^verbatim>\<open>isStarted\<close>, which \<^verbatim>\<open>stop()\<close> sets to false and \<^verbatim>\<open>start()\<close> to
  true, and the phase of the loop.
  \<^item> At the top of an iteration the loop observes the flag, and what it
    observes is the flag's value; observing false it returns and takes no
    further step; observing true it calls the service with the broker's filter.
  \<^item> While the call is in flight, \<^verbatim>\<open>start()\<close>, \<^verbatim>\<open>stop()\<close> and steps of other loops
    may occur; the loop's next step is the call's own completion, never a
    second call.
  \<^item> After \<^verbatim>\<open>true\<close> the loop is at the top again at once: its next step is the
    next step of the run. After \<^verbatim>\<open>false\<close> it sets a timer of \<open>interval\<close> and is
    at the top again when the timer has fired.
  A run may end only where the loop is suspended, not yet begun, or ended.
\<close>

datatype Phase =
  Not_begun | At_top | Must_call | Must_return | In_flight | Must_sleep | Asleep | Ended

definition suspended :: "Phase \<Rightarrow> bool" where
  "suspended ph = (ph = Not_begun \<or> ph = In_flight \<or> ph = Asleep \<or> ph = Ended)"

text \<open>A step that is not loop \<open>k\<close>'s own: allowed only while loop \<open>k\<close> does not run.\<close>

definition spec_other :: "bool \<Rightarrow> Phase \<Rightarrow> (bool \<times> Phase) option" where
  "spec_other flag ph = (if suspended ph then Some (flag, ph) else None)"

fun spec_step ::
  "int \<Rightarrow> HandlerOption \<Rightarrow> nat \<Rightarrow> bool \<times> Phase \<Rightarrow> Event \<Rightarrow> (bool \<times> Phase) option" where
  "spec_step i f k (flag, ph) Called_stop = spec_other False ph"
| "spec_step i f k (flag, ph) Called_start = spec_other True ph"
| "spec_step i f k (flag, ph) (Observed j v) =
     (if j = k
      then (if (ph = Not_begun \<or> ph = At_top) \<and> v = flag
            then Some (flag, if v then Must_call else Must_return) else None)
      else spec_other flag ph)"
| "spec_step i f k (flag, ph) (Handle_called j g) =
     (if j = k
      then (if ph = Must_call \<and> g = f then Some (flag, In_flight) else None)
      else spec_other flag ph)"
| "spec_step i f k (flag, ph) (Handle_resolved j r) =
     (if j = k
      then (if ph = In_flight then Some (flag, if r then At_top else Must_sleep) else None)
      else spec_other flag ph)"
| "spec_step i f k (flag, ph) (Timer_set j n) =
     (if j = k
      then (if ph = Must_sleep \<and> n = i then Some (flag, Asleep) else None)
      else spec_other flag ph)"
| "spec_step i f k (flag, ph) (Timer_fired j) =
     (if j = k
      then (if ph = Asleep then Some (flag, At_top) else None)
      else spec_other flag ph)"
| "spec_step i f k (flag, ph) (Loop_returned j) =
     (if j = k
      then (if ph = Must_return then Some (flag, Ended) else None)
      else spec_other flag ph)"

fun spec_run ::
  "int \<Rightarrow> HandlerOption \<Rightarrow> nat \<Rightarrow> bool \<times> Phase \<Rightarrow> Event list \<Rightarrow> bool" where
  "spec_run i f k st [] = suspended (snd st)"
| "spec_run i f k st (e # es) =
     (case spec_step i f k st e of None \<Rightarrow> False | Some st' \<Rightarrow> spec_run i f k st' es)"



text \<open>The same count over all loops of the broker.\<close>

fun broker_in_flight_step :: "nat \<Rightarrow> Event \<Rightarrow> nat" where
  "broker_in_flight_step n (Handle_called j g) = Suc n"
| "broker_in_flight_step n (Handle_resolved j r) = n - 1"
| "broker_in_flight_step n e = n"


section \<open>Example values\<close>

definition task_A :: Task where
  "task_A = \<lparr>task_id = ''a'', handler = ''callCallBack'', params = ''{}'', startAt = 100,
             timeout = None, status = Pending, info = [], error = [], retries = 0,
             createdAt = 50, updatedAt = 50\<rparr>"

definition task_B :: Task where
  "task_B = task_A\<lparr>task_id := ''b'', startAt := 200\<rparr>"

definition no_filter :: HandleOptions where
  "no_filter = \<lparr>include_opt = None, exclude_opt = None\<rparr>"

definition alone :: Interleaving where
  "alone = \<lparr>before_lock = (\<lambda>tbl. tbl), during_handler = (\<lambda>tbl. tbl)\<rparr>"

text \<open>Another poller that claims every pending row between the select and the claim.\<close>

definition racing :: Interleaving where
  "racing = \<lparr>before_lock = map (\<lambda>t. if status t = Pending then t\<lparr>status := Process\<rparr> else t),
              during_handler = (\<lambda>tbl. tbl)\<rparr>"

definition task_failed :: Task where
  "task_failed = task_A\<lparr>status := Error, error := ''boom'', retries := 3\<rparr>"

definition task_retried :: Task where
  "task_retried = task_A\<lparr>retries := 3\<rparr>"

text \<open>A broker as the constructor leaves it.\<close>

definition demo_broker :: Broker where
  "demo_broker = \<lparr>isStarted = False,
                  options = \<lparr>interval = 1000, handler_filter = Undefined\<rparr>\<rparr>"


definition no_handlers :: Handlers where
  "no_handlers = (\<lambda>name. None)"

definition failing_handlers :: Handlers where
  "failing_handlers =
     (\<lambda>name. if name = ''callCallBack'' then Some (\<lambda>p. Inl (Thrown ''Error: CallBack not found''))
             else None)"

text \<open>
  A handler that succeeds: it returns the context it was given with the task
  marked \<^verbatim>\<open>Done\<close>, as \<^verbatim>\<open>callCallBack\<close> does with \<^verbatim>\<open>return process.done()\<close>.
\<close>

definition done_handlers :: Handlers where
  "done_handlers =
     (\<lambda>name. if name = ''callCallBack''
             then Some (\<lambda>p. Inr \<lparr>task = (task p)\<lparr>status := Done, updatedAt := 170\<rparr>\<rparr>)
             else None)"

section \<open>Facts about the table operations\<close>

lemma select_current_None_iff:
  "select_current opts now tbl = None \<longleftrightarrow> (\<forall>t \<in> set tbl. \<not> candidate_where opts now t)"
proof -
  have "select_current opts now tbl = None
        \<longleftrightarrow> sort_key startAt (filter (candidate_where opts now) tbl) = []"
    by (simp add: select_current_def split: list.splits)
  also have "\<dots> \<longleftrightarrow> filter (candidate_where opts now) tbl = []"
    by (metis length_sort length_0_conv)
  also have "\<dots> \<longleftrightarrow> (\<forall>t \<in> set tbl. \<not> candidate_where opts now t)"
    by (simp add: filter_empty_conv)
  finally show ?thesis .
qed

lemma select_current_Some:
  assumes "select_current opts now tbl = Some c"
  shows "c \<in> set tbl" and "candidate_where opts now c"
    and "\<forall>t \<in> set tbl. candidate_where opts now t \<longrightarrow> startAt c \<le> startAt t"
proof -
  obtain rest where srt: "sort_key startAt (filter (candidate_where opts now) tbl) = c # rest"
    using assms by (auto simp: select_current_def split: list.splits)
  have "c \<in> set (sort_key startAt (filter (candidate_where opts now) tbl))"
    by (simp add: srt)
  then have mem: "c \<in> set (filter (candidate_where opts now) tbl)"
    by simp
  from mem show "c \<in> set tbl" by simp
  from mem show "candidate_where opts now c" by simp
  have "sorted (map startAt (sort_key startAt (filter (candidate_where opts now) tbl)))"
    by (rule sorted_sort_key)
  then have le: "\<forall>y \<in> set rest. startAt c \<le> startAt y"
    by (simp add: srt)
  show "\<forall>t \<in> set tbl. candidate_where opts now t \<longrightarrow> startAt c \<le> startAt t"
  proof (intro ballI impI)
    fix t assume "t \<in> set tbl" and "candidate_where opts now t"
    then have "t \<in> set (sort_key startAt (filter (candidate_where opts now) tbl))"
      by simp
    then have "t = c \<or> t \<in> set rest"
      by (simp add: srt)
    then show "startAt c \<le> startAt t"
      using le by auto
  qed
qed

text \<open>The where-clause of the select, field by field.\<close>

lemma candidate_where_iff:
  "candidate_where opts now t \<longleftrightarrow>
     status t = Pending \<and> startAt t \<le> now
     \<and> (\<forall>inc. include_opt opts = Some inc \<and> inc \<noteq> [] \<longrightarrow> handler t \<in> set inc)
     \<and> (\<forall>exc. exclude_opt opts = Some exc \<longrightarrow> handler t \<notin> set exc)"
  by (auto simp: candidate_where_def whereIn_include_def whereNotIn_exclude_def
      split: option.splits if_splits)

lemma candidate_where_empty_include:
  "candidate_where (opts\<lparr>include_opt := Some []\<rparr>) now
     = candidate_where (opts\<lparr>include_opt := None\<rparr>) now"
  by (rule ext) (simp add: candidate_where_def whereIn_include_def whereNotIn_exclude_def)

lemma candidate_where_empty_exclude:
  "candidate_where (opts\<lparr>exclude_opt := Some []\<rparr>) now
     = candidate_where (opts\<lparr>exclude_opt := None\<rparr>) now"
  by (rule ext) (simp add: candidate_where_def whereIn_include_def whereNotIn_exclude_def)

lemma lock_update_none:
  "lock_count cid tbl = 0 \<Longrightarrow> lock_update cid tbl = tbl"
  by (induction tbl) (auto simp: lock_count_def lock_update_def split: if_splits)

lemma lock_count_positive:
  "lock_count cid tbl \<noteq> 0 \<longleftrightarrow> (\<exists>r \<in> set tbl. lock_where cid r)"
  by (auto simp: lock_count_def filter_empty_conv)

lemma lock_update_nth:
  "i < length tbl \<Longrightarrow>
   lock_update cid tbl ! i =
     (if lock_where cid (tbl ! i)
      then (tbl ! i)\<lparr>status := Process, retries := retries (tbl ! i) + 1\<rparr>
      else tbl ! i)"
  by (simp add: lock_update_def)

lemma lock_update_keeps_id:
  "\<exists>r \<in> set tbl. lock_where cid r \<Longrightarrow> \<exists>r \<in> set (lock_update cid tbl). task_id r = cid"
proof -
  assume "\<exists>r \<in> set tbl. lock_where cid r"
  then obtain r where r: "r \<in> set tbl" "lock_where cid r"
    by blast
  have "r\<lparr>status := Process, retries := retries r + 1\<rparr> \<in> set (lock_update cid tbl)"
    using r by (auto simp: lock_update_def image_iff intro: bexI [of _ r])
  moreover have "task_id (r\<lparr>status := Process, retries := retries r + 1\<rparr>) = cid"
    using r(2) by (simp add: lock_where_def)
  ultimately show ?thesis
    by blast
qed

lemma update_where_id_rows:
  "task_id row = cid \<Longrightarrow>
   \<forall>r \<in> set (update_where_id cid row tbl). task_id r = cid \<longrightarrow> r = row"
  by (auto simp: update_where_id_def)

lemma update_where_id_member:
  "\<exists>r \<in> set tbl. task_id r = cid \<Longrightarrow> row \<in> set (update_where_id cid row tbl)"
  by (force simp: update_where_id_def)

lemma update_where_id_nth:
  "i < length tbl \<Longrightarrow>
   update_where_id cid row tbl ! i = (if task_id (tbl ! i) = cid then row else tbl ! i)"
  by (simp add: update_where_id_def)

section \<open>Facts about the poll cycle\<close>

lemma handle_effects_head:
  assumes "select_current opts now tbl = Some c"
  shows "\<exists>n rest. effects (handle Handlers others now now_error opts tbl)
           = Lock_attempt (task_id c) n # rest"
  using assms by (simp add: handle_def Let_def split: sum.splits)

text \<open>The \<^verbatim>\<open>catch\<close> branch.\<close>

lemma handle_caught:
  assumes "select_current opts now tbl = Some current"
    and "lock_count (task_id current) (before_lock others tbl) \<noteq> 0"
    and "call_handler Handlers (new_Process current) = Inl e"
  shows "handle Handlers others now now_error opts tbl =
     \<lparr>returned = True,
      table = update_where_id (task_id current)
                (current\<lparr>status := Error, error := description e, updatedAt := now_error\<rparr>)
                (during_handler others (lock_update (task_id current) (before_lock others tbl))),
      effects = [Lock_attempt (task_id current)
                   (lock_count (task_id current) (before_lock others tbl)),
                 Log_info (''Handle task: '' @ task_id current)]
                @ handler_effect Handlers current
                @ [Row_update (task_id current)
                     (current\<lparr>status := Error, error := description e,
                               updatedAt := now_error\<rparr>)]\<rparr>"
  using assms by (simp add: handle_def Let_def Process_error_def new_Process_def)

text \<open>The \<^verbatim>\<open>try\<close> branch run to its end.\<close>

lemma handle_returned_result:
  assumes "select_current opts now tbl = Some current"
    and "lock_count (task_id current) (before_lock others tbl) \<noteq> 0"
    and "call_handler Handlers (new_Process current) = Inr res"
  shows "handle Handlers others now now_error opts tbl =
     \<lparr>returned = True,
      table = update_where_id (task_id current) (task res)
                (during_handler others (lock_update (task_id current) (before_lock others tbl))),
      effects = [Lock_attempt (task_id current)
                   (lock_count (task_id current) (before_lock others tbl)),
                 Log_info (''Handle task: '' @ task_id current)]
                @ handler_effect Handlers current
                @ [Row_update (task_id current) (task res)]\<rparr>"
  using assms by (simp add: handle_def Let_def)

lemma handle_locked_table:
  assumes "select_current opts now tbl = Some current"
    and "lock_count (task_id current) (before_lock others tbl) \<noteq> 0"
  shows "\<exists>row. table (handle Handlers others now now_error opts tbl) =
           update_where_id (task_id current) row
             (during_handler others (lock_update (task_id current) (before_lock others tbl)))
         \<and> returned (handle Handlers others now now_error opts tbl)"
proof (cases "call_handler Handlers (new_Process current)")
  case (Inl e)
  show ?thesis
    unfolding handle_caught [OF assms Inl] by simp blast
next
  case (Inr res)
  show ?thesis
    unfolding handle_returned_result [OF assms Inr] by simp blast
qed

text \<open>
  The context is built from the row as it was selected, before the claim, and
  the failure operation keeps every field it does not set. So the record
  written in the \<^verbatim>\<open>catch\<close> branch carries the \<^verbatim>\<open>retries\<close> of the selected row, not
  the incremented one. (This rests on \<open>Process_error\<close>, which is modelled from
  the specification.)
\<close>

lemma handle_failure_writes_selected_retries:
  assumes "select_current opts now tbl = Some current"
    and "lock_count (task_id current) (before_lock others tbl) \<noteq> 0"
    and "call_handler Handlers (new_Process current) = Inl e"
  shows "\<forall>r \<in> set (table (handle Handlers others now now_error opts tbl)).
           task_id r = task_id current \<longrightarrow> retries r = retries current"
  by (auto simp: handle_caught [OF assms] update_where_id_def)

text \<open>The two places where the earlier iteration does less.\<close>

lemma lock_update_earlier_keeps_retries:
  "map retries (lock_update_earlier cid tbl) = map retries tbl"
  by (simp add: lock_update_earlier_def)

lemma resetAndRestart_earlier_keeps_error:
  "error (fst (resetAndRestart_earlier now_startAt t tbl)) = error t
   \<and> updatedAt (fst (resetAndRestart_earlier now_startAt t tbl)) = updatedAt t"
  by (simp add: resetAndRestart_earlier_def Let_def)

section \<open>Facts about the broker\<close>

text \<open>
  For an options value of the declared type the guard of \<^verbatim>\<open>createBroker\<close> is
  never true, whatever names its lists hold.
\<close>

lemma createBroker_declared_type_never_throws:
  "handler_opt opts = Undefined \<or> handler_opt opts = Options_value h
   \<Longrightarrow> createBroker Handlers opts = Inr (new_Broker opts)"
  by (auto simp: createBroker_def)

lemma createBroker_string_checked:
  "createBroker Handlers (opts\<lparr>handler_opt := String_value s\<rparr>) =
     (if Handlers s = None
      then Inl (Thrown (''Error: Invalid queue handler '' @ [CHR 0x22] @ s @ [CHR 0x22]))
      else Inr (new_Broker (opts\<lparr>handler_opt := String_value s\<rparr>)))"
  by (simp add: createBroker_def hasHandler_def)








text \<open>Two calls of \<^verbatim>\<open>start()\<close>: two loops, and two service calls of the broker in flight.\<close>

lemma two_loops_two_in_flight:
  "run \<lparr>broker = demo_broker, loops = []\<rparr> [Start, Start]
     = [Called_start, Observed 0 True, Handle_called 0 Undefined,
        Called_start, Observed 1 True, Handle_called 1 Undefined]
   \<and> foldl broker_in_flight_step 0 (run \<lparr>broker = demo_broker, loops = []\<rparr> [Start, Start]) = 2"
  by (simp add: demo_broker_def start_def Let_def Broker_handle_def)

text \<open>A run in which a \<^verbatim>\<open>stop()\<close> during the sleep is ignored is refused by the acceptor.\<close>

lemma ignored_stop_refused:
  "\<not> spec_run 1000 Undefined 0 (False, Not_begun)
       [Called_start, Observed 0 True, Handle_called 0 Undefined, Handle_resolved 0 False,
        Timer_set 0 1000, Called_stop, Timer_fired 0, Observed 0 True,
        Handle_called 0 Undefined]"
  by (simp add: spec_other_def suspended_def)

section \<open>The claims\<close>

subsection \<open>C1: a lost claim\<close>

text \<open>
  C1. When \<^verbatim>\<open>handle\<close> has selected a candidate and the conditional update matched on
  the candidate's id and status \<^verbatim>\<open>Pending\<close> reports 0 rows, \<^verbatim>\<open>handle\<close> returns false,
  calls no handler and writes nothing more: the claim attempt is its only
  effect, and the table is as the other pollers left it.
\<close>

theorem handle_lost_claim:
  assumes "select_current opts now tbl = Some current"
    and "lock_count (task_id current) (before_lock others tbl) = 0"
  shows "returned (handle Handlers others now now_error opts tbl) = False
     \<and> effects (handle Handlers others now now_error opts tbl)
         = [Lock_attempt (task_id current) 0]
     \<and> (\<forall>name. Handler_called name \<notin> set (effects (handle Handlers others now now_error opts tbl)))
     \<and> (\<forall>cid row. Row_update cid row
           \<notin> set (effects (handle Handlers others now now_error opts tbl)))
     \<and> table (handle Handlers others now now_error opts tbl) = before_lock others tbl"
  using assms by (simp add: handle_def Let_def lock_update_none)

theorem handle_lost_claim_witness:
  "select_current no_filter 150 [task_B, task_A] = Some task_A
   \<and> lock_count (task_id task_A) (before_lock racing [task_B, task_A]) = 0
   \<and> returned (handle failing_handlers racing 150 160 no_filter [task_B, task_A]) = False
   \<and> effects (handle failing_handlers racing 150 160 no_filter [task_B, task_A])
       = [Lock_attempt ''a'' 0]
   \<and> table (handle failing_handlers racing 150 160 no_filter [task_B, task_A])
       = [task_B\<lparr>status := Process\<rparr>, task_A\<lparr>status := Process\<rparr>]"
proof -
  have sel: "select_current no_filter 150 [task_B, task_A] = Some task_A"
    by (simp add: select_current_def candidate_where_def whereIn_include_def
        whereNotIn_exclude_def no_filter_def task_A_def task_B_def)
  have lost: "lock_count (task_id task_A) (before_lock racing [task_B, task_A]) = 0"
    by (simp add: lock_count_def lock_where_def racing_def task_A_def task_B_def)
  show ?thesis
    using handle_lost_claim [OF sel lost, of failing_handlers 160] sel lost
    by (simp add: racing_def task_A_def task_B_def)
qed

subsection \<open>C2: broker construction and unregistered names\<close>

text \<open>
  C2. The claim: \<^verbatim>\<open>createBroker\<close> fails at once when the include or exclude list
  holds a name that is not registered. The guard of \<^verbatim>\<open>createBroker\<close> asks whether
  \<^verbatim>\<open>options.handler\<close> is a string, and an options object is not one; so with a
  registry that has no \<^verbatim>\<open>noSuchHandler\<close> and an include list that names it, a
  broker is returned.
\<close>

theorem createBroker_unregistered_name_accepted:
  "failing_handlers ''noSuchHandler'' = None
   \<and> ''noSuchHandler''
       \<in> listed_names \<lparr>interval_opt = None,
                        handler_opt = Options_value \<lparr>include_opt = Some [''noSuchHandler''],
                                                     exclude_opt = None\<rparr>\<rparr>
   \<and> createBroker failing_handlers
       \<lparr>interval_opt = None,
        handler_opt = Options_value \<lparr>include_opt = Some [''noSuchHandler''],
                                     exclude_opt = None\<rparr>\<rparr>
     = Inr \<lparr>isStarted = False,
            options = \<lparr>interval = 1000,
                       handler_filter = Options_value \<lparr>include_opt = Some [''noSuchHandler''],
                                                        exclude_opt = None\<rparr>\<rparr>\<rparr>"
  by (simp add: createBroker_def failing_handlers_def new_Broker_def listed_names_def)

subsection \<open>C3: retries after a successful claim\<close>

text \<open>
  C3. The claim: on every successful claim the task's \<^verbatim>\<open>retries\<close> increases by
  exactly 1, also on repeated claims after failures. The claim update does add
  1 (3 becomes 4 below). But the context is built from the row as it was
  selected, before the claim, and the outcome is written over the whole row:
  after a cycle with a successful claim the stored \<^verbatim>\<open>retries\<close> is 3 again, both
  when the handler throws and when it returns the task marked \<^verbatim>\<open>Done\<close>.
\<close>

theorem handle_retries_written_back:
  "select_current no_filter 150 [task_B, task_retried] = Some task_retried
   \<and> lock_count ''a'' [task_B, task_retried] = 1
   \<and> lock_update ''a'' [task_B, task_retried]
       = [task_B, task_retried\<lparr>status := Process, retries := 4\<rparr>]
   \<and> returned (handle failing_handlers alone 150 160 no_filter [task_B, task_retried]) = True
   \<and> table (handle failing_handlers alone 150 160 no_filter [task_B, task_retried])
       = [task_B, task_retried\<lparr>status := Error, error := ''Error: CallBack not found'',
                                updatedAt := 160\<rparr>]
   \<and> map retries (table (handle failing_handlers alone 150 160 no_filter
                            [task_B, task_retried])) = [0, 3]
   \<and> returned (handle done_handlers alone 150 160 no_filter [task_B, task_retried]) = True
   \<and> map retries (table (handle done_handlers alone 150 160 no_filter
                            [task_B, task_retried])) = [0, 3]"
proof -
  have sel: "select_current no_filter 150 [task_B, task_retried] = Some task_retried"
    by (simp add: select_current_def candidate_where_def whereIn_include_def
        whereNotIn_exclude_def no_filter_def task_retried_def task_A_def task_B_def)
  have won: "lock_count (task_id task_retried) (before_lock alone [task_B, task_retried]) \<noteq> 0"
    by (simp add: lock_count_def lock_where_def alone_def task_retried_def task_A_def
        task_B_def)
  have thrown: "call_handler failing_handlers (new_Process task_retried)
                = Inl (Thrown ''Error: CallBack not found'')"
    by (simp add: call_handler_def new_Process_def failing_handlers_def task_retried_def
        task_A_def)
  have returns: "call_handler done_handlers (new_Process task_retried)
              = Inr \<lparr>task = task_retried\<lparr>status := Done, updatedAt := 170\<rparr>\<rparr>"
    by (simp add: call_handler_def new_Process_def done_handlers_def task_retried_def
        task_A_def)
  have locked: "lock_update ''a'' [task_B, task_retried]
       = [task_B, task_retried\<lparr>status := Process, retries := 4\<rparr>]"
    by (simp add: lock_update_def lock_where_def task_retried_def task_A_def task_B_def)
  have count: "lock_count ''a'' [task_B, task_retried] = 1"
    by (simp add: lock_count_def lock_where_def task_retried_def task_A_def task_B_def)
  have failed: "table (handle failing_handlers alone 150 160 no_filter [task_B, task_retried])
       = [task_B, task_retried\<lparr>status := Error, error := ''Error: CallBack not found'',
                                updatedAt := 160\<rparr>]"
    unfolding handle_caught [OF sel won thrown]
    by (simp add: update_where_id_def lock_update_def lock_where_def alone_def
        task_retried_def task_A_def task_B_def)
  have succeeded: "table (handle done_handlers alone 150 160 no_filter [task_B, task_retried])
       = [task_B, task_retried\<lparr>status := Done, updatedAt := 170\<rparr>]"
    unfolding handle_returned_result [OF sel won returns]
    by (simp add: update_where_id_def lock_update_def lock_where_def alone_def
        task_retried_def task_A_def task_B_def)
  have ret1: "returned (handle failing_handlers alone 150 160 no_filter [task_B, task_retried])"
    unfolding handle_caught [OF sel won thrown] by simp
  have ret2: "returned (handle done_handlers alone 150 160 no_filter [task_B, task_retried])"
    unfolding handle_returned_result [OF sel won returns] by simp
  have r1: "map retries [task_B, task_retried\<lparr>status := Error,
               error := ''Error: CallBack not found'', updatedAt := 160\<rparr>] = [0, 3]"
    by (simp add: task_retried_def task_A_def task_B_def)
  have r2: "map retries [task_B, task_retried\<lparr>status := Done, updatedAt := 170\<rparr>] = [0, 3]"
    by (simp add: task_retried_def task_A_def task_B_def)
  show ?thesis
    using sel count locked ret1 ret2 r1 r2 by (simp add: failed succeeded)
qed

subsection \<open>C4: reset\<close>

text \<open>
  C4. \<^verbatim>\<open>resetAndRestart\<close> returns the task with \<^verbatim>\<open>status\<close> \<^verbatim>\<open>Pending\<close>, \<^verbatim>\<open>startAt\<close> the
  current time, \<^verbatim>\<open>error\<close> empty and \<^verbatim>\<open>updatedAt\<close> the current time, and with \<^verbatim>\<open>id\<close>,
  \<^verbatim>\<open>handler\<close>, \<^verbatim>\<open>params\<close>, \<^verbatim>\<open>timeout\<close>, \<^verbatim>\<open>info\<close>, \<^verbatim>\<open>retries\<close> and \<^verbatim>\<open>createdAt\<close> unchanged. It
  writes that record over every row with the task's id and leaves the other
  rows alone; when the table has a row with that id, the record is in the
  table afterwards.
\<close>

theorem resetAndRestart_frame:
  "fst (resetAndRestart now_startAt now_updatedAt t tbl)
     = t\<lparr>status := Pending, startAt := now_startAt, error := [], updatedAt := now_updatedAt\<rparr>
   \<and> task_id (fst (resetAndRestart now_startAt now_updatedAt t tbl)) = task_id t
   \<and> handler (fst (resetAndRestart now_startAt now_updatedAt t tbl)) = handler t
   \<and> params (fst (resetAndRestart now_startAt now_updatedAt t tbl)) = params t
   \<and> timeout (fst (resetAndRestart now_startAt now_updatedAt t tbl)) = timeout t
   \<and> info (fst (resetAndRestart now_startAt now_updatedAt t tbl)) = info t
   \<and> retries (fst (resetAndRestart now_startAt now_updatedAt t tbl)) = retries t
   \<and> createdAt (fst (resetAndRestart now_startAt now_updatedAt t tbl)) = createdAt t
   \<and> status (fst (resetAndRestart now_startAt now_updatedAt t tbl)) = Pending
   \<and> startAt (fst (resetAndRestart now_startAt now_updatedAt t tbl)) = now_startAt
   \<and> error (fst (resetAndRestart now_startAt now_updatedAt t tbl)) = []
   \<and> updatedAt (fst (resetAndRestart now_startAt now_updatedAt t tbl)) = now_updatedAt
   \<and> length (snd (resetAndRestart now_startAt now_updatedAt t tbl)) = length tbl
   \<and> (\<forall>i < length tbl.
        snd (resetAndRestart now_startAt now_updatedAt t tbl) ! i =
          (if task_id (tbl ! i) = task_id t
           then fst (resetAndRestart now_startAt now_updatedAt t tbl)
           else tbl ! i))
   \<and> ((\<exists>r \<in> set tbl. task_id r = task_id t) \<longrightarrow>
        fst (resetAndRestart now_startAt now_updatedAt t tbl)
          \<in> set (snd (resetAndRestart now_startAt now_updatedAt t tbl)))"
proof -
  have eq: "resetAndRestart now_startAt now_updatedAt t tbl =
      (t\<lparr>status := Pending, startAt := now_startAt, error := [], updatedAt := now_updatedAt\<rparr>,
       update_where_id (task_id t)
         (t\<lparr>status := Pending, startAt := now_startAt, error := [],
             updatedAt := now_updatedAt\<rparr>) tbl)"
    by (simp add: resetAndRestart_def Let_def)
  have len: "length (update_where_id (task_id t)
         (t\<lparr>status := Pending, startAt := now_startAt, error := [],
             updatedAt := now_updatedAt\<rparr>) tbl) = length tbl"
    by (simp add: update_where_id_def)
  show ?thesis
    unfolding eq fst_conv snd_conv
    by (simp add: update_where_id_nth update_where_id_member len)
qed

theorem resetAndRestart_frame_witness:
  "(\<exists>r \<in> set [task_B, task_failed]. task_id r = task_id task_failed)
   \<and> resetAndRestart 300 301 task_failed [task_B, task_failed]
     = (task_A\<lparr>startAt := 300, updatedAt := 301, retries := 3\<rparr>,
        [task_B, task_A\<lparr>startAt := 300, updatedAt := 301, retries := 3\<rparr>])
   \<and> fst (resetAndRestart 300 301 task_failed [task_B, task_failed])
       \<in> set (snd (resetAndRestart 300 301 task_failed [task_B, task_failed]))"
  using resetAndRestart_frame [of 300 301 task_failed "[task_B, task_failed]"]
  by (simp add: resetAndRestart_def Let_def update_where_id_def task_failed_def
      task_A_def task_B_def)

subsection \<open>C5: the selected candidate\<close>

text \<open>
  C5, as stated, asks that the candidate's handler is in \<^verbatim>\<open>include\<close> whenever
  \<^verbatim>\<open>include\<close> is given. With \<^verbatim>\<open>include = []\<close> given, the select applies no handler
  filter and picks a task whose handler is not in the list.
\<close>

theorem select_empty_include_counterexample:
  "include_opt \<lparr>include_opt = Some [], exclude_opt = None\<rparr> = Some []
   \<and> select_current \<lparr>include_opt = Some [], exclude_opt = None\<rparr> 150 [task_A] = Some task_A
   \<and> handler task_A \<notin> set []"
  by (simp add: select_current_def candidate_where_def whereIn_include_def
      whereNotIn_exclude_def task_A_def)

text \<open>
  C5, amended. The candidate selected by one \<^verbatim>\<open>handle\<close> call is a row of the table
  with \<^verbatim>\<open>status = Pending\<close> and \<^verbatim>\<open>startAt \<le> now\<close>, its handler is in \<^verbatim>\<open>include\<close> when
  \<^verbatim>\<open>include\<close> is given and not empty, and not in \<^verbatim>\<open>exclude\<close> when \<^verbatim>\<open>exclude\<close> is given;
  no row that passes the same where-clause has an earlier \<^verbatim>\<open>startAt\<close>. So of two
  rows A and B that both pass it, with A's \<^verbatim>\<open>startAt\<close> before B's, B is not the
  one selected. The candidate is the one the cycle then tries to claim.
\<close>

theorem select_earliest_candidate:
  assumes "select_current opts now tbl = Some c"
  shows "c \<in> set tbl \<and> status c = Pending \<and> startAt c \<le> now
     \<and> (\<forall>inc. include_opt opts = Some inc \<and> inc \<noteq> [] \<longrightarrow> handler c \<in> set inc)
     \<and> (\<forall>exc. exclude_opt opts = Some exc \<longrightarrow> handler c \<notin> set exc)
     \<and> (\<forall>t \<in> set tbl. candidate_where opts now t \<longrightarrow> startAt c \<le> startAt t)
     \<and> (\<forall>a \<in> set tbl. \<forall>b \<in> set tbl.
          candidate_where opts now a \<and> candidate_where opts now b \<and> startAt a < startAt b
          \<longrightarrow> c \<noteq> b)
     \<and> (\<exists>n rest. effects (handle Handlers others now now_error opts tbl)
           = Lock_attempt (task_id c) n # rest)"
proof -
  note sel = select_current_Some [OF assms]
  have cand: "status c = Pending \<and> startAt c \<le> now
     \<and> (\<forall>inc. include_opt opts = Some inc \<and> inc \<noteq> [] \<longrightarrow> handler c \<in> set inc)
     \<and> (\<forall>exc. exclude_opt opts = Some exc \<longrightarrow> handler c \<notin> set exc)"
    using sel(2) candidate_where_iff [of opts now c] by blast
  have order: "\<forall>a \<in> set tbl. \<forall>b \<in> set tbl.
          candidate_where opts now a \<and> candidate_where opts now b \<and> startAt a < startAt b
          \<longrightarrow> c \<noteq> b"
    using sel(3) by fastforce
  show ?thesis
    using sel(1) sel(3) cand order handle_effects_head [OF assms] by blast
qed

theorem select_earliest_candidate_witness:
  "select_current no_filter 250 [task_B, task_A] = Some task_A
   \<and> candidate_where no_filter 250 task_A \<and> candidate_where no_filter 250 task_B
   \<and> startAt task_A < startAt task_B
   \<and> task_A \<noteq> task_B
   \<and> (\<exists>n rest. effects (handle failing_handlers alone 250 260 no_filter [task_B, task_A])
           = Lock_attempt ''a'' n # rest)"
proof -
  have sel: "select_current no_filter 250 [task_B, task_A] = Some task_A"
    by (simp add: select_current_def candidate_where_def whereIn_include_def
        whereNotIn_exclude_def no_filter_def task_A_def task_B_def)
  have cands: "candidate_where no_filter 250 task_A \<and> candidate_where no_filter 250 task_B
               \<and> startAt task_A < startAt task_B"
    by (simp add: candidate_where_def whereIn_include_def
        whereNotIn_exclude_def no_filter_def task_A_def task_B_def)
  show ?thesis
    using select_earliest_candidate [OF sel, of failing_handlers alone 260] sel cands
    by (auto simp: task_A_def)
qed

subsection \<open>C6: an idle cycle\<close>

text \<open>
  C6, as stated, counts a table as without eligible task when no task matches
  the include filter. With \<^verbatim>\<open>include = []\<close> given no handler is in the list, and yet
  the due pending task is selected, claimed and dispatched: \<^verbatim>\<open>handle\<close> returns true
  and the table is changed.
\<close>

theorem handle_empty_include_not_idle_counterexample:
  "include_opt \<lparr>include_opt = Some [], exclude_opt = None\<rparr> = Some []
   \<and> handler task_A \<notin> set []
   \<and> returned (handle failing_handlers alone 150 160
        \<lparr>include_opt = Some [], exclude_opt = None\<rparr> [task_A]) = True
   \<and> effects (handle failing_handlers alone 150 160
        \<lparr>include_opt = Some [], exclude_opt = None\<rparr> [task_A]) \<noteq> []
   \<and> table (handle failing_handlers alone 150 160
        \<lparr>include_opt = Some [], exclude_opt = None\<rparr> [task_A]) \<noteq> [task_A]"
proof -
  have sel: "select_current \<lparr>include_opt = Some [], exclude_opt = None\<rparr> 150 [task_A]
             = Some task_A"
    by (simp add: select_current_def candidate_where_def whereIn_include_def
        whereNotIn_exclude_def task_A_def)
  have won: "lock_count (task_id task_A) (before_lock alone [task_A]) \<noteq> 0"
    by (simp add: lock_count_def lock_where_def alone_def task_A_def)
  have thrown: "call_handler failing_handlers (new_Process task_A)
                = Inl (Thrown ''Error: CallBack not found'')"
    by (simp add: call_handler_def new_Process_def failing_handlers_def task_A_def)
  show ?thesis
    unfolding handle_caught [OF sel won thrown]
    by (simp add: update_where_id_def lock_update_def lock_where_def alone_def task_A_def)
qed

text \<open>
  C6, amended. When the table holds no eligible task (it is empty, or each of
  its rows is not \<^verbatim>\<open>Pending\<close>, or starts in the future, or has a handler missing
  from a non-empty \<^verbatim>\<open>include\<close> list, or has a handler in the \<^verbatim>\<open>exclude\<close> list),
  \<^verbatim>\<open>handle\<close> returns false, has no effect at all and leaves the table as it was,
  whatever other pollers do.
\<close>

theorem handle_idle_no_writes:
  assumes "\<forall>t \<in> set tbl.
             status t \<noteq> Pending \<or> now < startAt t
             \<or> (\<exists>inc. include_opt opts = Some inc \<and> inc \<noteq> [] \<and> handler t \<notin> set inc)
             \<or> (\<exists>exc. exclude_opt opts = Some exc \<and> handler t \<in> set exc)"
  shows "handle Handlers others now now_error opts tbl
         = \<lparr>returned = False, table = tbl, effects = []\<rparr>"
proof -
  have "\<forall>t \<in> set tbl. \<not> candidate_where opts now t"
  proof
    fix t assume "t \<in> set tbl"
    with assms have "status t \<noteq> Pending \<or> now < startAt t
             \<or> (\<exists>inc. include_opt opts = Some inc \<and> inc \<noteq> [] \<and> handler t \<notin> set inc)
             \<or> (\<exists>exc. exclude_opt opts = Some exc \<and> handler t \<in> set exc)"
      by blast
    then show "\<not> candidate_where opts now t"
      unfolding candidate_where_iff by auto
  qed
  then have "select_current opts now tbl = None"
    by (simp add: select_current_None_iff)
  then show ?thesis
    by (simp add: handle_def)
qed

theorem handle_idle_no_writes_witness:
  "10 < startAt task_A \<and> 10 < startAt task_B
   \<and> handle failing_handlers racing 10 11 no_filter [task_A, task_B]
     = \<lparr>returned = False, table = [task_A, task_B], effects = []\<rparr>
   \<and> handle failing_handlers alone 10 11 no_filter []
     = \<lparr>returned = False, table = [], effects = []\<rparr>
   \<and> handle failing_handlers alone 250 260
        \<lparr>include_opt = Some [''other''], exclude_opt = None\<rparr> [task_A, task_B]
     = \<lparr>returned = False, table = [task_A, task_B], effects = []\<rparr>"
proof -
  have future: "\<forall>t \<in> set [task_A, task_B].
             status t \<noteq> Pending \<or> 10 < startAt t
             \<or> (\<exists>inc. include_opt no_filter = Some inc \<and> inc \<noteq> [] \<and> handler t \<notin> set inc)
             \<or> (\<exists>exc. exclude_opt no_filter = Some exc \<and> handler t \<in> set exc)"
    by (simp add: task_A_def task_B_def)
  have empty: "\<forall>t \<in> set ([] :: Table).
             status t \<noteq> Pending \<or> 10 < startAt t
             \<or> (\<exists>inc. include_opt no_filter = Some inc \<and> inc \<noteq> [] \<and> handler t \<notin> set inc)
             \<or> (\<exists>exc. exclude_opt no_filter = Some exc \<and> handler t \<in> set exc)"
    by simp
  have filtered: "\<forall>t \<in> set [task_A, task_B].
             status t \<noteq> Pending \<or> 250 < startAt t
             \<or> (\<exists>inc. include_opt \<lparr>include_opt = Some [''other''], exclude_opt = None\<rparr>
                         = Some inc \<and> inc \<noteq> [] \<and> handler t \<notin> set inc)
             \<or> (\<exists>exc. exclude_opt \<lparr>include_opt = Some [''other''], exclude_opt = None\<rparr>
                         = Some exc \<and> handler t \<in> set exc)"
    by (simp add: task_A_def task_B_def)
  show ?thesis
    using handle_idle_no_writes [OF future, of failing_handlers racing 11]
      handle_idle_no_writes [OF empty, of failing_handlers alone 11]
      handle_idle_no_writes [OF filtered, of failing_handlers alone 260]
    by (simp add: task_A_def task_B_def)
qed

subsection \<open>C7: a handler that throws\<close>

text \<open>
  C7. After a successful claim \<^verbatim>\<open>handle\<close> returns true, whatever the handler does.
  If the registered handler throws, \<^verbatim>\<open>handle\<close> writes, over the rows with the
  task's id, the selected task with \<^verbatim>\<open>status = Error\<close>, \<^verbatim>\<open>error\<close> the description of
  what was thrown and \<^verbatim>\<open>updatedAt\<close> the current time, as the last effect of the
  cycle; every row with that id then is that record, and the record is in the
  table when a row with that id was there.
\<close>

theorem handle_failure_persists_error:
  assumes "select_current opts now tbl = Some current"
    and "lock_count (task_id current) (before_lock others tbl) \<noteq> 0"
  shows "returned (handle Handlers others now now_error opts tbl) = True
     \<and> (\<forall>h e. Handlers (handler current) = Some h \<and> h (new_Process current) = Inl e \<longrightarrow>
          table (handle Handlers others now now_error opts tbl) =
            update_where_id (task_id current)
              (current\<lparr>status := Error, error := description e, updatedAt := now_error\<rparr>)
              (during_handler others (lock_update (task_id current) (before_lock others tbl)))
          \<and> (\<forall>r \<in> set (table (handle Handlers others now now_error opts tbl)).
                task_id r = task_id current \<longrightarrow>
                r = current\<lparr>status := Error, error := description e, updatedAt := now_error\<rparr>)
          \<and> ((\<exists>r \<in> set (during_handler others
                            (lock_update (task_id current) (before_lock others tbl))).
                  task_id r = task_id current) \<longrightarrow>
               current\<lparr>status := Error, error := description e, updatedAt := now_error\<rparr>
                 \<in> set (table (handle Handlers others now now_error opts tbl)))
          \<and> last (effects (handle Handlers others now now_error opts tbl)) =
               Row_update (task_id current)
                 (current\<lparr>status := Error, error := description e, updatedAt := now_error\<rparr>))"
proof -
  have ret: "returned (handle Handlers others now now_error opts tbl) = True"
    using handle_locked_table [OF assms] by blast
  have thrown: "table (handle Handlers others now now_error opts tbl) =
            update_where_id (task_id current)
              (current\<lparr>status := Error, error := description e, updatedAt := now_error\<rparr>)
              (during_handler others (lock_update (task_id current) (before_lock others tbl)))
          \<and> (\<forall>r \<in> set (table (handle Handlers others now now_error opts tbl)).
                task_id r = task_id current \<longrightarrow>
                r = current\<lparr>status := Error, error := description e, updatedAt := now_error\<rparr>)
          \<and> ((\<exists>r \<in> set (during_handler others
                            (lock_update (task_id current) (before_lock others tbl))).
                  task_id r = task_id current) \<longrightarrow>
               current\<lparr>status := Error, error := description e, updatedAt := now_error\<rparr>
                 \<in> set (table (handle Handlers others now now_error opts tbl)))
          \<and> last (effects (handle Handlers others now now_error opts tbl)) =
               Row_update (task_id current)
                 (current\<lparr>status := Error, error := description e, updatedAt := now_error\<rparr>)"
    if reg: "Handlers (handler current) = Some h" and thr: "h (new_Process current) = Inl e"
    for h e
  proof -
    have call: "call_handler Handlers (new_Process current) = Inl e"
      using reg thr by (simp add: call_handler_def new_Process_def)
    note eq = handle_caught [OF assms call, of now_error]
    have rows: "\<forall>r \<in> set (table (handle Handlers others now now_error opts tbl)).
                task_id r = task_id current \<longrightarrow>
                r = current\<lparr>status := Error, error := description e, updatedAt := now_error\<rparr>"
      unfolding eq by (simp add: update_where_id_rows)
    have mem: "(\<exists>r \<in> set (during_handler others
                            (lock_update (task_id current) (before_lock others tbl))).
                  task_id r = task_id current) \<longrightarrow>
               current\<lparr>status := Error, error := description e, updatedAt := now_error\<rparr>
                 \<in> set (table (handle Handlers others now now_error opts tbl))"
      unfolding eq by (simp add: update_where_id_member)
    show ?thesis
      using rows mem by (simp add: eq)
  qed
  show ?thesis
    using ret thrown by blast
qed

theorem handle_failure_persists_error_witness:
  "select_current no_filter 150 [task_B, task_A] = Some task_A
   \<and> lock_count (task_id task_A) (before_lock alone [task_B, task_A]) \<noteq> 0
   \<and> failing_handlers (handler task_A) = Some (\<lambda>p. Inl (Thrown ''Error: CallBack not found''))
   \<and> returned (handle failing_handlers alone 150 160 no_filter [task_B, task_A]) = True
   \<and> table (handle failing_handlers alone 150 160 no_filter [task_B, task_A])
       = [task_B, task_A\<lparr>status := Error, error := ''Error: CallBack not found'',
                         updatedAt := 160\<rparr>]"
proof -
  have sel: "select_current no_filter 150 [task_B, task_A] = Some task_A"
    by (simp add: select_current_def candidate_where_def whereIn_include_def
        whereNotIn_exclude_def no_filter_def task_A_def task_B_def)
  have won: "lock_count (task_id task_A) (before_lock alone [task_B, task_A]) \<noteq> 0"
    by (simp add: lock_count_def lock_where_def alone_def task_A_def task_B_def)
  have reg: "failing_handlers (handler task_A)
             = Some (\<lambda>p. Inl (Thrown ''Error: CallBack not found''))"
    by (simp add: failing_handlers_def task_A_def)
  have "table (handle failing_handlers alone 150 160 no_filter [task_B, task_A]) =
          update_where_id (task_id task_A)
            (task_A\<lparr>status := Error, error := description (Thrown ''Error: CallBack not found''),
                    updatedAt := 160\<rparr>)
            (during_handler alone (lock_update (task_id task_A) (before_lock alone [task_B, task_A])))"
    using handle_failure_persists_error [OF sel won, of failing_handlers 160] reg
    by simp
  then have tab: "table (handle failing_handlers alone 150 160 no_filter [task_B, task_A])
       = [task_B, task_A\<lparr>status := Error, error := ''Error: CallBack not found'',
                         updatedAt := 160\<rparr>]"
    by (simp add: update_where_id_def lock_update_def lock_where_def alone_def
        task_A_def task_B_def)
  show ?thesis
    using handle_failure_persists_error [OF sel won, of failing_handlers 160] sel won reg tab
    by simp
qed

subsection \<open>C8: a handler name that is not registered\<close>

text \<open>
  C8. When the claimed task names a handler that the registry does not have,
  the lookup throws inside the \<^verbatim>\<open>try\<close> block and is caught: \<^verbatim>\<open>handle\<close> returns (true),
  no handler is called, and the task is written back with \<^verbatim>\<open>status = Error\<close>, so
  every row with the task's id has that status.
\<close>

theorem handle_unregistered_handler:
  assumes "select_current opts now tbl = Some current"
    and "lock_count (task_id current) (before_lock others tbl) \<noteq> 0"
    and "Handlers (handler current) = None"
  shows "handle Handlers others now now_error opts tbl =
     \<lparr>returned = True,
      table = update_where_id (task_id current)
                (current\<lparr>status := Error, error := description undefined_default,
                          updatedAt := now_error\<rparr>)
                (during_handler others (lock_update (task_id current) (before_lock others tbl))),
      effects = [Lock_attempt (task_id current)
                   (lock_count (task_id current) (before_lock others tbl)),
                 Log_info (''Handle task: '' @ task_id current),
                 Row_update (task_id current)
                   (current\<lparr>status := Error, error := description undefined_default,
                             updatedAt := now_error\<rparr>)]\<rparr>
     \<and> (\<forall>r \<in> set (table (handle Handlers others now now_error opts tbl)).
           task_id r = task_id current \<longrightarrow> status r = Error)"
proof -
  have call: "call_handler Handlers (new_Process current) = Inl undefined_default"
    using assms(3) by (simp add: call_handler_def new_Process_def)
  note eq = handle_caught [OF assms(1,2) call, of now_error]
  have none: "handler_effect Handlers current = []"
    using assms(3) by (simp add: handler_effect_def)
  have rows: "\<forall>r \<in> set (table (handle Handlers others now now_error opts tbl)).
           task_id r = task_id current \<longrightarrow> status r = Error"
    unfolding eq by (auto simp: update_where_id_def)
  show ?thesis
    using rows by (simp add: eq none)
qed

theorem handle_unregistered_handler_witness:
  "select_current no_filter 150 [task_B, task_A] = Some task_A
   \<and> lock_count (task_id task_A) (before_lock alone [task_B, task_A]) \<noteq> 0
   \<and> no_handlers (handler task_A) = None
   \<and> returned (handle no_handlers alone 150 160 no_filter [task_B, task_A]) = True
   \<and> table (handle no_handlers alone 150 160 no_filter [task_B, task_A])
       = [task_B, task_A\<lparr>status := Error, error := description undefined_default,
                         updatedAt := 160\<rparr>]"
proof -
  have sel: "select_current no_filter 150 [task_B, task_A] = Some task_A"
    by (simp add: select_current_def candidate_where_def whereIn_include_def
        whereNotIn_exclude_def no_filter_def task_A_def task_B_def)
  have won: "lock_count (task_id task_A) (before_lock alone [task_B, task_A]) \<noteq> 0"
    by (simp add: lock_count_def lock_where_def alone_def task_A_def task_B_def)
  have unreg: "no_handlers (handler task_A) = None"
    by (simp add: no_handlers_def)
  have "table (handle no_handlers alone 150 160 no_filter [task_B, task_A])
       = update_where_id (task_id task_A)
           (task_A\<lparr>status := Error, error := description undefined_default, updatedAt := 160\<rparr>)
           (during_handler alone (lock_update (task_id task_A) (before_lock alone [task_B, task_A])))
     \<and> returned (handle no_handlers alone 150 160 no_filter [task_B, task_A]) = True"
    using handle_unregistered_handler
      [where Handlers = no_handlers and now_error = 160, OF sel won unreg]
    by simp
  then show ?thesis
    using sel won unreg
    by (simp add: update_where_id_def lock_update_def lock_where_def alone_def
        task_A_def task_B_def)
qed

subsection \<open>C9: the broker loop\<close>



subsection \<open>C10: an empty filter list\<close>

text \<open>
  C10. \<^verbatim>\<open>handle\<close> with an \<^verbatim>\<open>include\<close> list that is present and empty does exactly what
  it does with \<^verbatim>\<open>include\<close> absent, and likewise for \<^verbatim>\<open>exclude\<close>: same result, same
  table, same effects, on every table.
\<close>

theorem handle_empty_list_is_no_filter:
  "handle Handlers others now now_error (opts\<lparr>include_opt := Some []\<rparr>) tbl
     = handle Handlers others now now_error (opts\<lparr>include_opt := None\<rparr>) tbl
   \<and> handle Handlers others now now_error (opts\<lparr>exclude_opt := Some []\<rparr>) tbl
     = handle Handlers others now now_error (opts\<lparr>exclude_opt := None\<rparr>) tbl"
  by (simp add: handle_def select_current_def candidate_where_empty_include
      candidate_where_empty_exclude)

theorem handle_empty_list_is_no_filter_witness:
  "handle failing_handlers alone 150 160 \<lparr>include_opt = Some [], exclude_opt = Some []\<rparr>
     [task_B, task_A]
   = handle failing_handlers alone 150 160 no_filter [task_B, task_A]
   \<and> returned (handle failing_handlers alone 150 160
        \<lparr>include_opt = Some [], exclude_opt = Some []\<rparr> [task_B, task_A]) = True"
proof -
  have inc: "handle failing_handlers alone 150 160 \<lparr>include_opt = Some [], exclude_opt = Some []\<rparr>
               [task_B, task_A]
             = handle failing_handlers alone 150 160 \<lparr>include_opt = None, exclude_opt = Some []\<rparr>
               [task_B, task_A]"
    using handle_empty_list_is_no_filter
      [of failing_handlers alone 150 160 "\<lparr>include_opt = Some [], exclude_opt = Some []\<rparr>"
        "[task_B, task_A]"]
    by simp
  have exc: "handle failing_handlers alone 150 160 \<lparr>include_opt = None, exclude_opt = Some []\<rparr>
               [task_B, task_A]
             = handle failing_handlers alone 150 160 no_filter [task_B, task_A]"
    using handle_empty_list_is_no_filter
      [of failing_handlers alone 150 160 "\<lparr>include_opt = None, exclude_opt = Some []\<rparr>"
        "[task_B, task_A]"]
    by (simp add: no_filter_def)
  have sel: "select_current no_filter 150 [task_B, task_A] = Some task_A"
    by (simp add: select_current_def candidate_where_def whereIn_include_def
        whereNotIn_exclude_def no_filter_def task_A_def task_B_def)
  have won: "lock_count (task_id task_A) (before_lock alone [task_B, task_A]) \<noteq> 0"
    by (simp add: lock_count_def lock_where_def alone_def task_A_def task_B_def)
  have "returned (handle failing_handlers alone 150 160 no_filter [task_B, task_A]) = True"
    using handle_locked_table [OF sel won] by blast
  then show ?thesis
    using inc exc by simp
qed

end
